theory Spec2Isabelle
  imports Complex_Main "HOL-Library.Sublist"
begin

chapter \<open>TruthShield Pro backend: the classifier, the middleware, sessions and pagination\<close>

section \<open>Content-threat classifier (src/utils/ai-detection.js)\<close>

subsection \<open>Strings and the regular expressions of the pattern table\<close>

text \<open>
  A JavaScript string is a sequence of UTF-16 code units. The literals of the source are
  ASCII and are written with \<open>js\<close>.
\<close>

type_synonym js_string = "nat list"

definition js :: "string \<Rightarrow> js_string" where
  "js s = map of_char s"

text \<open>A literal at the head of a string: what follows it, or \<open>None\<close> when it is not there.\<close>

fun strip_prefix :: "js_string \<Rightarrow> js_string \<Rightarrow> js_string option" where
  "strip_prefix [] s = Some s"
| "strip_prefix (p # ps) [] = None"
| "strip_prefix (p # ps) (c # cs) = (if p = c then strip_prefix ps cs else None)"

text \<open>\<open>String.prototype.includes\<close>: the needle occurs as a contiguous run.\<close>

fun js_includes :: "js_string \<Rightarrow> js_string \<Rightarrow> bool" where
  "js_includes [] needle = (needle = [])"
| "js_includes (c # cs) needle =
     (if strip_prefix needle (c # cs) \<noteq> None then True else js_includes cs needle)"

text \<open>
  The regular expressions of \<open>THREAT_PATTERNS\<close> are all of the shape
  \<open>/lit.*lit.*lit/i\<close>: literal runs separated by \<open>.*\<close>, matched without regard to case.
  Under the \<open>i\<close> flag (and no \<open>u\<close> flag) two code units match when their canonical forms
  agree; an ASCII letter is canonicalised to its upper-case form and no code unit from 128
  upwards is canonicalised to an ASCII one, so against the ASCII literals of the table the
  function below decides the same matches. The dot matches every code unit except the
  line terminators LF, CR, U+2028 and U+2029.
\<close>

datatype re_item = Lit js_string | AnyStar

type_synonym regex = "re_item list"

definition canonicalize :: "nat \<Rightarrow> nat" where
  "canonicalize c = (if 97 \<le> c \<and> c \<le> 122 then c - 32 else c)"

definition line_terminator :: "nat \<Rightarrow> bool" where
  "line_terminator c = (c = 10 \<or> c = 13 \<or> c = 8232 \<or> c = 8233)"

fun lit_match_ci :: "js_string \<Rightarrow> js_string \<Rightarrow> js_string option" where
  "lit_match_ci [] s = Some s"
| "lit_match_ci (p # ps) [] = None"
| "lit_match_ci (p # ps) (c # cs) =
     (if canonicalize p = canonicalize c then lit_match_ci ps cs else None)"

text \<open>
  A match of the whole expression beginning at the head of the string. The engine
  backtracks over every length the \<open>.*\<close> may take, so \<open>test\<close> succeeds exactly when some
  choice does.
\<close>

fun re_match_here :: "regex \<Rightarrow> js_string \<Rightarrow> bool" where
  "re_match_here [] s = True"
| "re_match_here (Lit l # r) s =
     (case lit_match_ci l s of None \<Rightarrow> False | Some rest \<Rightarrow> re_match_here r rest)"
| "re_match_here (AnyStar # r) [] = re_match_here r []"
| "re_match_here (AnyStar # r) (c # cs) =
     ((\<not> line_terminator c \<and> re_match_here (AnyStar # r) cs) \<or> re_match_here r (c # cs))"

text \<open>\<open>RegExp.prototype.test\<close> for an expression without the \<open>g\<close> flag: a match at any index.\<close>

fun regex_test :: "regex \<Rightarrow> js_string \<Rightarrow> bool" where
  "regex_test r [] = re_match_here r []"
| "regex_test r (c # cs) = (re_match_here r (c # cs) \<or> regex_test r cs)"

text \<open>
  The URL expression \<open>/https?:\/\/([^\/\s]+)/g\<close> of \<open>detectThreatType\<close>. \<open>\s\<close> is the
  white space and line terminator class of ECMAScript. A match at the head of the string
  gives the captured host and the text after the match, where the next \<open>exec\<close> continues.
\<close>

definition is_whitespace :: "nat \<Rightarrow> bool" where
  "is_whitespace c =
     (c = 9 \<or> c = 10 \<or> c = 11 \<or> c = 12 \<or> c = 13 \<or> c = 32 \<or> c = 160 \<or> c = 5760
      \<or> (8192 \<le> c \<and> c \<le> 8202) \<or> c = 8232 \<or> c = 8233 \<or> c = 8239 \<or> c = 8287
      \<or> c = 12288 \<or> c = 65279)"

definition host_char :: "nat \<Rightarrow> bool" where
  "host_char c = (c \<noteq> 47 \<and> \<not> is_whitespace c)"

definition url_match_here :: "js_string \<Rightarrow> (js_string \<times> js_string) option" where
  "url_match_here s =
     (case strip_prefix [104, 116, 116, 112] s of
        None \<Rightarrow> None
      | Some r \<Rightarrow>
          (case strip_prefix [58, 47, 47] (case r of c # t \<Rightarrow> if c = 115 then t else r | [] \<Rightarrow> r) of
             None \<Rightarrow> None
           | Some h \<Rightarrow>
               if takeWhile host_char h = [] then None
               else Some (takeWhile host_char h, dropWhile host_char h)))"

text \<open>
  The loop \<open>while ((match = urlRegex.exec(content)) !== null)\<close>: the hosts of the
  successive matches, each search starting where the previous match ended.
\<close>

function url_exec_all :: "js_string \<Rightarrow> js_string list" where
  "url_exec_all [] = []"
| "url_exec_all (c # cs) =
     (case url_match_here (c # cs) of
        Some (host, rest) \<Rightarrow> host # url_exec_all rest
      | None \<Rightarrow> url_exec_all cs)"
  by pat_completeness auto
termination
proof (relation "measure length")
  show "wf (measure length)" by simp
next
  fix c :: nat and cs x2 host rest
  assume m: "url_match_here (c # cs) = Some x2" and x2: "(host, rest) = x2"
  have sp: "strip_prefix p s = Some t \<Longrightarrow> length t \<le> length s" for p s t
    by (induction p s rule: strip_prefix.induct) (auto split: if_splits)
  from m x2 obtain r h where r: "strip_prefix [104, 116, 116, 112] (c # cs) = Some r"
    and h: "strip_prefix [58, 47, 47] (case r of c # t \<Rightarrow> if c = 115 then t else r | [] \<Rightarrow> r) = Some h"
    and rest: "rest = dropWhile host_char h"
    by (auto simp: url_match_here_def split: option.splits if_splits)
  from r have "length r < length (c # cs)"
    by (auto split: if_splits dest: sp)
  moreover have "length (case r of c # t \<Rightarrow> if c = 115 then t else r | [] \<Rightarrow> r) \<le> length r"
    by (simp split: list.splits)
  moreover note sp[OF h]
  moreover have "length rest \<le> length h"
    unfolding rest by (rule length_dropWhile_le)
  ultimately show "(rest, c # cs) \<in> measure length" by simp
next
  fix c :: nat and cs
  show "(cs, c # cs) \<in> measure length" by simp
qed

subsection \<open>The pattern table\<close>

record threat_patterns =
  keyword_list :: "js_string list"
  domains :: "js_string list option"
  patterns :: "regex list"

definition phishing_patterns :: threat_patterns where
  "phishing_patterns =
     \<lparr> keyword_list = map js
         [''verify your account'', ''password expiration'', ''suspended account'',
          ''urgent action required'', ''click here'', ''limited time offer'',
          ''free gift'', ''account verification'', ''security alert'',
          ''unauthorized login attempt'', ''update your information''],
       domains = Some (map js [''paypal-security.com'', ''apple-verify.net'', ''amazon-update.com'']),
       patterns =
         [[Lit (js ''verify''), AnyStar, Lit (js ''account'')],
          [Lit (js ''password''), AnyStar, Lit (js ''expir'')],
          [Lit (js ''suspended''), AnyStar, Lit (js ''account'')],
          [Lit (js ''urgent''), AnyStar, Lit (js ''action'')],
          [Lit (js ''click''), AnyStar, Lit (js ''here'')],
          [Lit (js ''free''), AnyStar, Lit (js ''gift'')]] \<rparr>"

definition malware_patterns :: threat_patterns where
  "malware_patterns =
     \<lparr> keyword_list = map js
         [''virus detected'', ''system infected'', ''download now'',
          ''install update'', ''security patch'', ''anti-virus'',
          ''pc scan'', ''remove threats'', ''system cleaner''],
       domains = None,
       patterns =
         [[Lit (js ''virus''), AnyStar, Lit (js ''detected'')],
          [Lit (js ''system''), AnyStar, Lit (js ''infected'')],
          [Lit (js ''download''), AnyStar, Lit (js ''now'')],
          [Lit (js ''install''), AnyStar, Lit (js ''update'')]] \<rparr>"

definition social_engineering_patterns :: threat_patterns where
  "social_engineering_patterns =
     \<lparr> keyword_list = map js
         [''trust me'', ''emergency'', ''quick money'',
          ''guaranteed profit'', ''no risk'', ''limited spots'',
          ''exclusive offer'', ''once in a lifetime''],
       domains = None,
       patterns =
         [[Lit (js ''trust''), AnyStar, Lit (js ''me'')],
          [Lit (js ''emergency''), AnyStar, Lit (js ''need'')],
          [Lit (js ''quick''), AnyStar, Lit (js ''money'')],
          [Lit (js ''guaranteed''), AnyStar, Lit (js ''profit'')]] \<rparr>"

definition financial_scam_patterns :: threat_patterns where
  "financial_scam_patterns =
     \<lparr> keyword_list = map js
         [''investment opportunity'', ''bitcoin'', ''crypto'',
          ''double your money'', ''risk-free'', ''get rich quick'',
          ''stock tips'', ''forex trading'', ''binary options''],
       domains = None,
       patterns =
         [[Lit (js ''investment''), AnyStar, Lit (js ''opportunity'')],
          [Lit (js ''double''), AnyStar, Lit (js ''money'')],
          [Lit (js ''risk-free'')],
          [Lit (js ''get''), AnyStar, Lit (js ''rich''), AnyStar, Lit (js ''quick'')]] \<rparr>"

definition predator_behavior_patterns :: threat_patterns where
  "predator_behavior_patterns =
     \<lparr> keyword_list = map js
         [''where do you live'', ''how old are you'', ''send picture'',
          ''meet in person'', ''keep this secret'', ''your parents'',
          ''alone tonight'', ''private chat''],
       domains = None,
       patterns =
         [[Lit (js ''where''), AnyStar, Lit (js ''live'')],
          [Lit (js ''how''), AnyStar, Lit (js ''old'')],
          [Lit (js ''send''), AnyStar, Lit (js ''picture'')],
          [Lit (js ''meet''), AnyStar, Lit (js ''person'')],
          [Lit (js ''keep''), AnyStar, Lit (js ''secret'')]] \<rparr>"

text \<open>\<open>Object.entries(THREAT_PATTERNS)\<close>: the categories in the order they are written.\<close>

definition THREAT_PATTERNS :: "(string \<times> threat_patterns) list" where
  "THREAT_PATTERNS =
     [(''phishing'', phishing_patterns),
      (''malware'', malware_patterns),
      (''social_engineering'', social_engineering_patterns),
      (''financial_scam'', financial_scam_patterns),
      (''predator_behavior'', predator_behavior_patterns)]"

subsection \<open>The engine and the services it takes from its runtime\<close>

text \<open>
  The module keeps one \<open>TfIdf\<close> object of the \<open>natural\<close> package and one engine object.
  The state that the source mutates is the engine's \<open>initialized\<close> flag and the documents
  added to the \<open>TfIdf\<close> object, each recorded as the pair of arguments that
  \<open>addDocument\<close> received.
\<close>

record engine =
  confidenceThreshold :: real
  initialized :: bool
  documents :: "(js_string \<times> string) list"

text \<open>
  What the source calls but does not define is a parameter of the model:
  \<^item> \<open>toLowerCase\<close> is \<open>String.prototype.toLowerCase\<close>;
  \<^item> \<open>tfidf_measure docs content i\<close> is the measure that \<open>tfidf.tfidfs(content, callback)\<close>
    hands to its callback for document \<open>i\<close>; \<open>tfidfs\<close> calls back once for every document, in order.
  Numbers are real numbers: the rounding of the floating point operations is not modelled.
\<close>

record runtime =
  toLowerCase :: "js_string \<Rightarrow> js_string"
  tfidf_measure :: "(js_string \<times> string) list \<Rightarrow> js_string \<Rightarrow> nat \<Rightarrow> real"

definition trainingData :: "(js_string \<times> string) list" where
  "trainingData =
     [(js ''verify your account now urgent action required'', ''phishing''),
      (js ''your password will expire soon click here'', ''phishing''),
      (js ''virus detected on your computer download antivirus'', ''malware''),
      (js ''system infected install security update now'', ''malware''),
      (js ''investment opportunity double your money fast'', ''financial_scam''),
      (js ''bitcoin trading guaranteed profits no risk'', ''financial_scam''),
      (js ''where do you live can we meet alone'', ''predator_behavior''),
      (js ''how old are you send me your picture'', ''predator_behavior'')]"

text \<open>\<open>init\<close> has no \<open>await\<close> in its body, so a call runs to its end before it returns.\<close>

definition init :: "engine \<Rightarrow> engine" where
  "init eng =
     eng \<lparr> documents := foldl (\<lambda>docs item. docs @ [item]) (documents eng) trainingData,
           initialized := True \<rparr>"

text \<open>The constructor, run once when the module is loaded: the exported engine.\<close>

definition new_engine :: engine where
  "new_engine = init \<lparr> confidenceThreshold = 7 / 10, initialized = False, documents = [] \<rparr>"

subsection \<open>detectThreatType\<close>

text \<open>
  An indicator is a template string: \<open>keyword: ${keyword}\<close>, \<open>pattern_${index + 1}\<close>,
  \<open>suspicious_domain: ${domain}\<close>, or the fixed string \<open>AI-pattern-detected\<close>.
\<close>

datatype indicator =
  KeywordIndicator js_string
| PatternIndicator nat
| SuspiciousDomain js_string
| AIPatternDetected

record detection =
  detected :: bool
  det_confidence :: real
  det_indicators :: "indicator list"

definition keyword_step ::
  "(js_string \<Rightarrow> js_string) \<Rightarrow> js_string \<Rightarrow> nat \<times> indicator list \<Rightarrow> js_string \<Rightarrow> nat \<times> indicator list" where
  "keyword_step lower lowerContent acc keyword =
     (if js_includes lowerContent (lower keyword)
      then (fst acc + 1, snd acc @ [KeywordIndicator keyword])
      else acc)"

definition pattern_step ::
  "js_string \<Rightarrow> (nat \<times> indicator list) \<times> nat \<Rightarrow> regex \<Rightarrow> (nat \<times> indicator list) \<times> nat" where
  "pattern_step content st pattern =
     (let acc = fst st; index = snd st
      in if regex_test pattern content
         then ((fst acc + 1, snd acc @ [PatternIndicator (index + 1)]), index + 1)
         else (acc, index + 1))"

definition domain_step ::
  "js_string list \<Rightarrow> nat \<times> indicator list \<Rightarrow> js_string \<Rightarrow> nat \<times> indicator list" where
  "domain_step bad acc domain =
     (if list_ex (\<lambda>badDomain. js_includes domain badDomain) bad
      then (fst acc + 2, snd acc @ [SuspiciousDomain domain])
      else acc)"

text \<open>
  The three loops run one after another over the same \<open>matchCount\<close> and \<open>indicators\<close>;
  \<open>forEach\<close> over the expressions also passes the index. \<open>patterns.domains\<close> is tested
  for presence only: a list, even an empty one, is truthy.
\<close>

definition detectThreatType :: "runtime \<Rightarrow> engine \<Rightarrow> js_string \<Rightarrow> threat_patterns \<Rightarrow> detection" where
  "detectThreatType rt eng content pats =
     (let lowerContent = toLowerCase rt content;
          totalPatterns = length (keyword_list pats) + length (patterns pats);
          acc1 = foldl (keyword_step (toLowerCase rt) lowerContent) (0, []) (keyword_list pats);
          acc2 = fst (foldl (pattern_step content) (acc1, 0) (patterns pats));
          acc3 = (case domains pats of
                    None \<Rightarrow> acc2
                  | Some bad \<Rightarrow> foldl (domain_step bad) acc2 (url_exec_all content))
      in if totalPatterns > 0
         then \<lparr> detected = (real (fst acc3) / real totalPatterns > confidenceThreshold eng),
                det_confidence = real (fst acc3) / real totalPatterns,
                det_indicators = snd acc3 \<rparr>
         else \<lparr> detected = False, det_confidence = 0, det_indicators = snd acc3 \<rparr>)"

subsection \<open>Scoring the detected threats\<close>

text \<open>
  A threat carries its type (a category name, or \<open>None\<close> for \<open>null\<close>), its confidence,
  its indicators and a severity label.
\<close>

record threat =
  threat_type :: "string option"
  confidence :: real
  indicators :: "indicator list"
  severity :: string

text \<open>
  A lookup in an object literal finds the properties written in the literal; the labels
  looked up here are category names and severity labels, none of which names a member
  that every object inherits.
\<close>

definition baseSeverity_table :: "(string \<times> string) list" where
  "baseSeverity_table =
     [(''phishing'', ''high''),
      (''malware'', ''high''),
      (''financial_scam'', ''medium''),
      (''social_engineering'', ''medium''),
      (''predator_behavior'', ''critical'')]"

definition calculateSeverity :: "string option \<Rightarrow> real \<Rightarrow> string" where
  "calculateSeverity threatType conf =
     (let baseSeverity =
            (case threatType of
               None \<Rightarrow> ''low''
             | Some t \<Rightarrow> (case map_of baseSeverity_table t of None \<Rightarrow> ''low'' | Some s \<Rightarrow> s))
      in if conf > 9 / 10 \<and> baseSeverity = ''medium'' then ''high''
         else if conf > 9 / 10 \<and> baseSeverity = ''high'' then ''critical''
         else baseSeverity)"

definition calculateOverallConfidence :: "threat list \<Rightarrow> real" where
  "calculateOverallConfidence threats =
     (if length threats = 0 then 0
      else foldl (\<lambda>sum t. sum + confidence t) 0 threats / real (length threats))"

definition severityWeights :: "(string \<times> real) list" where
  "severityWeights = [(''low'', 1), (''medium'', 2), (''high'', 3), (''critical'', 4)]"

text \<open>
  The weighted score is \<open>None\<close> when it is \<open>NaN\<close>: a severity that is not in the table
  looks up \<open>undefined\<close>, the product with it is \<open>NaN\<close>, and so is every sum after it.
  Every comparison with \<open>NaN\<close> is false.
\<close>

definition weighted_step :: "real option \<Rightarrow> threat \<Rightarrow> real option" where
  "weighted_step score t =
     (case (score, map_of severityWeights (severity t)) of
        (Some s, Some w) \<Rightarrow> Some (s + confidence t * w)
      | _ \<Rightarrow> None)"

definition js_ge :: "real option \<Rightarrow> real \<Rightarrow> bool" where
  "js_ge x y = (case x of None \<Rightarrow> False | Some v \<Rightarrow> v \<ge> y)"

definition determineRiskLevel :: "threat list \<Rightarrow> string" where
  "determineRiskLevel threats =
     (if length threats = 0 then ''low''
      else let weightedScore = foldl weighted_step (Some 0) threats
           in if js_ge weightedScore 3 then ''critical''
              else if js_ge weightedScore 2 then ''high''
              else if js_ge weightedScore 1 then ''medium''
              else ''low'')"

definition recommendations_for :: "string option \<Rightarrow> string list" where
  "recommendations_for t =
     (if t = Some ''phishing'' then
        [''Do not click any links in this message'',
         ''Verify the sender through official channels'',
         ''Report this as phishing to the platform'']
      else if t = Some ''malware'' then
        [''Do not download any attachments'',
         ''Run a security scan on your device'',
         ''Keep your antivirus software updated'']
      else if t = Some ''predator_behavior'' then
        [''Do not share personal information'',
         ''Block and report this user immediately'',
         ''Inform a trusted adult about this interaction'']
      else if t = Some ''financial_scam'' then
        [''Be cautious of investment opportunities'',
         ''Research the company through official sources'',
         ''Never send money to unknown individuals'']
      else [])"

text \<open>\<open>[...new Set(recommendations)]\<close> keeps the first occurrence of each string.\<close>

definition set_insert :: "'a list \<Rightarrow> 'a \<Rightarrow> 'a list" where
  "set_insert acc x = (if x \<in> set acc then acc else acc @ [x])"

definition generateRecommendations :: "threat list \<Rightarrow> string list" where
  "generateRecommendations threats =
     foldl set_insert []
       (foldl (\<lambda>recommendations t. recommendations @ recommendations_for (threat_type t)) [] threats)"

subsection \<open>classifyWithTFIDF\<close>

record tfidf_result =
  category :: "string option"
  tfidf_confidence :: real
  scores :: "(string \<times> real) list"

text \<open>
  \<open>scores\<close> is an object used as a dictionary: a new key is added after the existing
  ones and \<open>Object.entries\<close> lists the keys in that order. \<open>(scores[category] || 0)\<close>
  reads 0 for a key that is not there.
\<close>

fun scores_add :: "(string \<times> real) list \<Rightarrow> string \<Rightarrow> real \<Rightarrow> (string \<times> real) list" where
  "scores_add [] k m = [(k, 0 + m)]"
| "scores_add ((k', v) # rest) k m =
     (if k' = k then (k', v + m) # rest else (k', v) # scores_add rest k m)"

text \<open>
  \<open>tfidf.documents[i].category\<close>. The object that the \<open>natural\<close> package keeps for a
  document holds the number of occurrences of each term of the text, under the term, and
  the second argument of \<open>addDocument\<close> under \<open>__key\<close>. It has a property \<open>category\<close>
  only when that word is a term of the text, which it is in none of the training texts.
  So the property is \<open>undefined\<close> for every document that \<open>init\<close> adds, and as a key of
  \<open>scores\<close> that is the string \<open>undefined\<close>.
\<close>

definition doc_category :: "js_string \<times> string \<Rightarrow> string" where
  "doc_category document = ''undefined''"

definition tfidf_callback ::
  "runtime \<Rightarrow> (js_string \<times> string) list \<Rightarrow> js_string
     \<Rightarrow> (string \<times> real) list \<times> real \<Rightarrow> nat \<Rightarrow> (string \<times> real) list \<times> real" where
  "tfidf_callback rt docs content st i =
     (let measure = tfidf_measure rt docs content i;
          cat = doc_category (docs ! i)
      in (scores_add (fst st) cat measure, snd st + \<bar>measure\<bar>))"

definition best_step :: "real \<times> string option \<Rightarrow> string \<times> real \<Rightarrow> real \<times> string option" where
  "best_step st entry =
     (if snd entry > fst st then (snd entry, Some (fst entry)) else st)"

definition classifyWithTFIDF :: "runtime \<Rightarrow> engine \<Rightarrow> js_string \<Rightarrow> tfidf_result" where
  "classifyWithTFIDF rt eng content =
     (let st = foldl (tfidf_callback rt (documents eng) content) ([], 0)
                 [0..<length (documents eng)];
          totalScore = snd st;
          best = foldl best_step (0, None) (fst st);
          maxScore = fst best;
          bestCategory = snd best
      in \<lparr> category = bestCategory,
            tfidf_confidence = (if totalScore > 0 then maxScore / totalScore else 0),
            scores = fst st \<rparr>)"

subsection \<open>analyzeContent\<close>

record analysis =
  threats :: "threat list"
  overall_confidence :: real
  riskLevel :: string
  analysis_indicators :: "indicator list"
  recommendations :: "string list"

text \<open>
  The argument is any JavaScript value. The first statement that touches it is
  \<open>content.toLowerCase()\<close> in \<open>detectThreatType\<close> for the first category of the table:
  it throws a \<open>TypeError\<close> for every primitive value other than a string, and the
  rejection reaches the caller.
\<close>

datatype js_value = JSString js_string | JSNumber real | JSBoolean bool | JSNull | JSUndefined

datatype js_error = TypeError

definition pattern_threat_step ::
  "runtime \<Rightarrow> engine \<Rightarrow> js_string \<Rightarrow> threat list \<Rightarrow> string \<times> threat_patterns \<Rightarrow> threat list" where
  "pattern_threat_step rt eng content ts entry =
     (let threatType = fst entry;
          threatResult = detectThreatType rt eng content (snd entry)
      in if detected threatResult
         then ts @ [\<lparr> threat_type = Some threatType,
                      confidence = det_confidence threatResult,
                      indicators = det_indicators threatResult,
                      severity = calculateSeverity (Some threatType) (det_confidence threatResult) \<rparr>]
         else ts)"

definition analyzeContent :: "runtime \<Rightarrow> engine \<Rightarrow> js_value \<Rightarrow> (js_error + analysis) \<times> engine" where
  "analyzeContent rt eng0 v =
     (let eng = (if \<not> initialized eng0 then init eng0 else eng0)
      in case v of
           JSString content \<Rightarrow>
             (let threats1 = foldl (pattern_threat_step rt eng content) [] THREAT_PATTERNS;
                  tfidfResults = classifyWithTFIDF rt eng content;
                  threats2 =
                    (if tfidf_confidence tfidfResults > confidenceThreshold eng
                     then threats1 @
                            [\<lparr> threat_type = category tfidfResults,
                               confidence = tfidf_confidence tfidfResults,
                               indicators = [AIPatternDetected],
                               severity = calculateSeverity (category tfidfResults)
                                            (tfidf_confidence tfidfResults) \<rparr>]
                     else threats1)
              in (Inr \<lparr> threats = threats2,
                        overall_confidence = calculateOverallConfidence threats2,
                        riskLevel = determineRiskLevel threats2,
                        analysis_indicators = [],
                        recommendations = generateRecommendations threats2 \<rparr>, eng))
         | _ \<Rightarrow> (Inl TypeError, eng))"

section \<open>Request middleware (src/middleware)\<close>

text \<open>
  A middleware either sends a response, \<open>res.status(code).json(body)\<close>, or passes the
  request on with \<open>next()\<close>. The bodies sent here are objects with a \<open>status\<close>, a
  \<open>message\<close> and, for a failed validation, the \<open>errors\<close> array.
\<close>

record 'e json_body =
  body_status :: string
  body_message :: string
  body_errors :: "'e list option"

datatype ('req, 'e) outcome = Responded nat "'e json_body" | Next 'req

subsection \<open>handleValidationErrors\<close>

text \<open>
  \<open>validationResult(req)\<close> belongs to the \<open>express-validator\<close> package: it collects the
  failures of the rules that ran on the request. It is a parameter, giving
  \<open>errors.array()\<close>; \<open>errors.isEmpty()\<close> holds when that array is empty.
\<close>

definition handleValidationErrors :: "('req \<Rightarrow> 'e list) \<Rightarrow> 'req \<Rightarrow> ('req, 'e) outcome" where
  "handleValidationErrors validationResult req =
     (let errors = validationResult req
      in if \<not> (errors = [])
         then Responded 400
                \<lparr> body_status = ''error'',
                  body_message = ''Validation failed'',
                  body_errors = Some errors \<rparr>
         else Next req)"

subsection \<open>protect\<close>

text \<open>
  The request as \<open>protect\<close> reads it: the two headers (absent, or a string) and the
  \<open>user\<close> property that it sets.
\<close>

record 'u request =
  authorization :: "string option"
  x_truthshield_token :: "string option"
  req_user :: "'u option"

text \<open>A call into a library or the database either throws or returns.\<close>

datatype 'a call = Throws | Returns 'a

record 'i decoded =
  token_id :: 'i
  iat :: nat

text \<open>
  \<open>jwt.verify\<close> and \<open>User.findById\<close> (which resolves to \<open>null\<close> when there is no such
  user) belong to the token library and the database layer; they are parameters.
  \<open>JWT_SECRET\<close> is \<open>constants.JWT_SECRET\<close>. Whatever these calls throw is caught by the
  inner \<open>try\<close>; reading the headers does not throw, so the outer handler with its status
  500 is not reached.
\<close>

record ('i, 'u) auth_env =
  JWT_SECRET :: string
  jwt_verify :: "string \<Rightarrow> string \<Rightarrow> 'i decoded call"
  findById :: "'i \<Rightarrow> 'u option call"

text \<open>
  \<open>user.changedPasswordAfter(decoded.iat)\<close>. The methods that the User schema of the
  repository declares are \<open>correctPassword\<close>, \<open>updateSecurityScore\<close>, \<open>addAchievement\<close>
  and \<open>checkLevelUp\<close>. A user document has no \<open>changedPasswordAfter\<close>: the property is
  \<open>undefined\<close>, and calling it throws a \<open>TypeError\<close>.
\<close>

definition changedPasswordAfter :: "'u \<Rightarrow> nat \<Rightarrow> bool call" where
  "changedPasswordAfter user JWTTimestamp = Throws"

text \<open>\<open>String.prototype.split\<close> with a one-character separator.\<close>

fun split_on :: "char \<Rightarrow> string \<Rightarrow> string list" where
  "split_on sep [] = [[]]"
| "split_on sep (c # cs) =
     (if c = sep then [] # split_on sep cs
      else (case split_on sep cs of
              [] \<Rightarrow> [[c]]
            | w # ws \<Rightarrow> (c # w) # ws))"

text \<open>An absent value and the empty string are both falsy.\<close>

definition truthy :: "string option \<Rightarrow> bool" where
  "truthy v = (case v of None \<Rightarrow> False | Some s \<Rightarrow> s \<noteq> [])"

definition startsWith :: "string \<Rightarrow> string \<Rightarrow> bool" where
  "startsWith s p = prefix p s"

definition extract_token :: "'u request \<Rightarrow> string option" where
  "extract_token req =
     (if truthy (authorization req) \<and> startsWith (the (authorization req)) ''Bearer''
      then (let parts = split_on CHR '' '' (the (authorization req))
            in if 1 < length parts then Some (parts ! 1) else None)
      else if truthy (x_truthshield_token req) then x_truthshield_token req
      else None)"

definition not_authorized :: "'e json_body" where
  "not_authorized =
     \<lparr> body_status = ''error'',
       body_message = ''Not authorized to access this route'',
       body_errors = None \<rparr>"

definition protect :: "('i, 'u) auth_env \<Rightarrow> 'u request \<Rightarrow> ('u request, 'e) outcome" where
  "protect env req =
     (let token = extract_token req
      in if \<not> truthy token then Responded 401 not_authorized
         else
           (case jwt_verify env (the token) (JWT_SECRET env) of
              Throws \<Rightarrow> Responded 401 not_authorized
            | Returns decoded \<Rightarrow>
                (case findById env (token_id decoded) of
                   Throws \<Rightarrow> Responded 401 not_authorized
                 | Returns None \<Rightarrow>
                     Responded 401
                       \<lparr> body_status = ''error'',
                         body_message = ''User no longer exists'',
                         body_errors = None \<rparr>
                 | Returns (Some user) \<Rightarrow>
                     (case changedPasswordAfter user (iat decoded) of
                        Throws \<Rightarrow> Responded 401 not_authorized
                      | Returns True \<Rightarrow>
                          Responded 401
                            \<lparr> body_status = ''error'',
                              body_message = ''User recently changed password. Please log in again.'',
                              body_errors = None \<rparr>
                      | Returns False \<Rightarrow> Next (req \<lparr> req_user := Some user \<rparr>)))))"

text \<open>
  What the middleware is said to require: a bearer token in the \<open>Authorization\<close> header,
  which verifies and names an existing user.
\<close>

definition bearer_token :: "'u request \<Rightarrow> string option" where
  "bearer_token req =
     (if truthy (authorization req) \<and> startsWith (the (authorization req)) ''Bearer''
      then (let parts = split_on CHR '' '' (the (authorization req))
            in if 1 < length parts \<and> parts ! 1 \<noteq> [] then Some (parts ! 1) else None)
      else None)"

definition valid_bearer :: "('i, 'u) auth_env \<Rightarrow> 'u request \<Rightarrow> bool" where
  "valid_bearer env req =
     (case bearer_token req of
        None \<Rightarrow> False
      | Some token \<Rightarrow>
          (case jwt_verify env token (JWT_SECRET env) of
             Throws \<Rightarrow> False
           | Returns decoded \<Rightarrow>
               (case findById env (token_id decoded) of
                  Returns (Some user) \<Rightarrow> True
                | _ \<Rightarrow> False)))"

section \<open>Game sessions (src/models/GameProgress.js)\<close>

datatype difficulty = Easy | Medium | Hard | Expert

record question =
  questionId :: string
  isCorrect :: bool

text \<open>
  The fields of a session that its methods read or write. \<open>timeSpent\<close> is in seconds;
  \<open>startTime\<close> and \<open>endTime\<close> are dates, in milliseconds.
\<close>

record game_session =
  difficulty :: difficulty
  score :: real
  timeSpent :: real
  correctAnswers :: nat
  totalQuestions :: nat
  accuracy :: real
  completed :: bool
  questions :: "question list"
  startTime :: int
  endTime :: "int option"

text \<open>A session as \<open>POST /api/games/start\<close> creates it: the schema defaults and a start time.\<close>

definition fresh_session :: "difficulty \<Rightarrow> int \<Rightarrow> game_session" where
  "fresh_session d now =
     \<lparr> difficulty = d, score = 0, timeSpent = 0, correctAnswers = 0, totalQuestions = 0,
       accuracy = 0, completed = False, questions = [], startTime = now, endTime = None \<rparr>"

definition Math_round :: "real \<Rightarrow> real" where
  "Math_round x = real_of_int \<lfloor>x + 1 / 2\<rfloor>"

definition difficultyMultiplier :: "difficulty \<Rightarrow> real" where
  "difficultyMultiplier d = (case d of Easy \<Rightarrow> 1 | Medium \<Rightarrow> 3 / 2 | Hard \<Rightarrow> 2 | Expert \<Rightarrow> 3)"

definition calculateScore :: "game_session \<Rightarrow> game_session" where
  "calculateScore s =
     (let baseScore = real (correctAnswers s) * 10;
          accuracyBonus = accuracy s * 2;
          timePenalty = max 0 ((timeSpent s - 300) / 10)
      in s \<lparr> score := max 0 ((baseScore + accuracyBonus) * difficultyMultiplier (difficulty s)
                               - timePenalty) \<rparr>)"

definition addQuestionResult :: "question \<Rightarrow> game_session \<Rightarrow> game_session" where
  "addQuestionResult questionData s =
     calculateScore
       (s \<lparr> questions := questions s @ [questionData],
            totalQuestions := totalQuestions s + 1,
            correctAnswers := (if isCorrect questionData then correctAnswers s + 1
                               else correctAnswers s) \<rparr>)"

definition completeSession :: "int \<Rightarrow> game_session \<Rightarrow> game_session" where
  "completeSession now s =
     calculateScore
       (s \<lparr> completed := True,
            endTime := Some now,
            timeSpent := Math_round (real_of_int (now - startTime s) / 1000) \<rparr>)"

text \<open>The \<open>pre('save')\<close> hook.\<close>

definition pre_save :: "game_session \<Rightarrow> game_session" where
  "pre_save s =
     (if totalQuestions s > 0
      then s \<lparr> accuracy := Math_round (real (correctAnswers s) / real (totalQuestions s) * 100) \<rparr>
      else s)"

text \<open>
  \<open>POST /api/games/:sessionId/answer\<close> adds the result and saves the session; the
  validation of the schema runs before the hook, on the state the methods left.
\<close>

definition answer_and_save :: "game_session \<Rightarrow> question \<Rightarrow> game_session" where
  "answer_and_save s q = pre_save (addQuestionResult q s)"

datatype session_call = AddQuestionResult question | CompleteSession int

fun session_step :: "game_session \<Rightarrow> session_call \<Rightarrow> game_session" where
  "session_step s (AddQuestionResult q) = addQuestionResult q s"
| "session_step s (CompleteSession now) = completeSession now s"

section \<open>Pagination (HelperUtils.paginate)\<close>

text \<open>\<open>Array.prototype.slice\<close> on integer arguments: a negative index counts from the end.\<close>

definition slice :: "'a list \<Rightarrow> int \<Rightarrow> int \<Rightarrow> 'a list" where
  "slice xs start end =
     (let len = int (length xs);
          k = (if start < 0 then max (len + start) 0 else min start len);
          final = (if end < 0 then max (len + end) 0 else min end len)
      in take (nat (final - k)) (drop (nat k) xs))"

record page_ref =
  ref_page :: int
  ref_limit :: int

text \<open>
  \<open>next\<close> and \<open>previous\<close> are \<open>None\<close> when the property is not set. \<open>totalPages\<close> is
  \<open>None\<close> when \<open>limit\<close> is 0 and the quotient is not a finite number.
\<close>

record 'a page_result =
  "next" :: "page_ref option"
  previous :: "page_ref option"
  total :: nat
  totalPages :: "int option"
  currentPage :: int
  data :: "'a list"

definition paginate :: "'a list \<Rightarrow> int \<Rightarrow> int \<Rightarrow> 'a page_result" where
  "paginate array page limit =
     (let startIndex = (page - 1) * limit;
          endIndex = page * limit
      in \<lparr> next = (if endIndex < int (length array)
                     then Some \<lparr>ref_page = page + 1, ref_limit = limit\<rparr> else None),
            previous = (if startIndex > 0
                     then Some \<lparr>ref_page = page - 1, ref_limit = limit\<rparr> else None),
            total = length array,
            totalPages = (if limit = 0 then None
                     else Some \<lceil>real (length array) / real_of_int limit\<rceil>),
            currentPage = page,
            data = slice array startIndex endIndex \<rparr>)"

section \<open>The stated behaviour, in its own words\<close>

text \<open>
  The match count of a category as it is described: one for each keyword found without
  regard to case, one for each expression that matches, and two for each URL of the text
  whose host contains a listed domain.
\<close>

definition keyword_matches :: "(js_string \<Rightarrow> js_string) \<Rightarrow> js_string \<Rightarrow> threat_patterns \<Rightarrow> nat" where
  "keyword_matches lower content pats =
     length (filter (\<lambda>keyword. js_includes (lower content) (lower keyword)) (keyword_list pats))"

definition pattern_matches :: "js_string \<Rightarrow> threat_patterns \<Rightarrow> nat" where
  "pattern_matches content pats =
     length (filter (\<lambda>pattern. regex_test pattern content) (patterns pats))"

definition suspicious_urls :: "js_string \<Rightarrow> threat_patterns \<Rightarrow> nat" where
  "suspicious_urls content pats =
     (case domains pats of
        None \<Rightarrow> 0
      | Some bad \<Rightarrow>
          length (filter (\<lambda>host. list_ex (\<lambda>d. js_includes host d) bad) (url_exec_all content)))"

definition match_count :: "(js_string \<Rightarrow> js_string) \<Rightarrow> js_string \<Rightarrow> threat_patterns \<Rightarrow> nat" where
  "match_count lower content pats =
     keyword_matches lower content pats + pattern_matches content pats
       + 2 * suspicious_urls content pats"

text \<open>The weighted score of a list of threats and the level it is mapped to.\<close>

definition severity_weight :: "string \<Rightarrow> real" where
  "severity_weight s =
     (if s = ''low'' then 1 else if s = ''medium'' then 2
      else if s = ''high'' then 3 else if s = ''critical'' then 4 else 0)"

definition weighted_sum :: "threat list \<Rightarrow> real" where
  "weighted_sum ts = sum_list (map (\<lambda>t. confidence t * severity_weight (severity t)) ts)"

definition level_of_score :: "real \<Rightarrow> string" where
  "level_of_score s =
     (if s \<ge> 3 then ''critical'' else if s \<ge> 2 then ''high''
      else if s \<ge> 1 then ''medium'' else ''low'')"

definition severity_labels :: "string list" where
  "severity_labels = [''low'', ''medium'', ''high'', ''critical'']"

text \<open>The total of the absolute measures of a text against the documents.\<close>

definition total_measure :: "runtime \<Rightarrow> (js_string \<times> string) list \<Rightarrow> js_string \<Rightarrow> real" where
  "total_measure rt docs content =
     sum_list (map (\<lambda>i. \<bar>tfidf_measure rt docs content i\<bar>) [0..<length docs])"

text \<open>The engine after a sequence of calls of \<open>analyzeContent\<close>, whatever they returned.\<close>

definition analyze_all :: "runtime \<Rightarrow> engine \<Rightarrow> js_value list \<Rightarrow> engine" where
  "analyze_all rt eng vs = foldl (\<lambda>e v. snd (analyzeContent rt e v)) eng vs"

section \<open>Concrete inputs\<close>

text \<open>
  A runtime for ASCII text: \<open>toLowerCase\<close> maps A to Z onto a to z and leaves every other
  ASCII code unit alone, as the JavaScript function does; the measure is 0 throughout, as
  it is for a text that shares no term with the documents.
\<close>

definition ascii_lower :: "js_string \<Rightarrow> js_string" where
  "ascii_lower s = map (\<lambda>c. if 65 \<le> c \<and> c \<le> 90 then c + 32 else c) s"

definition ascii_runtime :: runtime where
  "ascii_runtime =
     \<lparr> toLowerCase = ascii_lower,
       tfidf_measure = (\<lambda>docs content i. 0) \<rparr>"

text \<open>Nine links to a listed domain, one after another.\<close>

definition suspicious_link :: js_string where
  "suspicious_link = js ''http://apple-verify.net/''"

definition nine_links :: js_string where
  "nine_links =
     suspicious_link @ suspicious_link @ suspicious_link @ suspicious_link @ suspicious_link
       @ suspicious_link @ suspicious_link @ suspicious_link @ suspicious_link"

text \<open>
  An environment for \<open>protect\<close> in which the token \<open>valid\<close> verifies and names user 1,
  who exists; a request that carries this token in the \<open>x-truthshield-token\<close> header
  and has no \<open>Authorization\<close> header; and a request that carries it as a bearer token.
\<close>

definition example_env :: "(nat, string) auth_env" where
  "example_env =
     \<lparr> JWT_SECRET = ''truthshield_pro_advanced_secret_key_2024'',
       jwt_verify = (\<lambda>token secret. if token = ''valid'' then Returns \<lparr> token_id = 1, iat = 0 \<rparr>
                                       else Throws),
       findById = (\<lambda>i. Returns (if i = 1 then Some ''alice'' else None)) \<rparr>"

definition header_token_request :: "string request" where
  "header_token_request =
     \<lparr> authorization = None, x_truthshield_token = Some ''valid'', req_user = None \<rparr>"

definition bearer_request :: "string request" where
  "bearer_request =
     \<lparr> authorization = Some ''Bearer valid'', x_truthshield_token = None, req_user = None \<rparr>"

definition correct_answer :: question where
  "correct_answer = \<lparr> questionId = ''ss_easy_1'', isCorrect = True \<rparr>"

section \<open>Properties of the classifier\<close>

subsection \<open>Risk level\<close>

lemma weighted_fold:
  assumes "list_all (\<lambda>t. severity t \<in> set severity_labels) ts"
  shows "foldl weighted_step (Some a) ts = Some (a + weighted_sum ts)"
  using assms
proof (induction ts arbitrary: a)
  case Nil
  show ?case by (simp add: weighted_sum_def)
next
  case (Cons t ts)
  from Cons.prems have sev: "severity t \<in> set severity_labels"
    and rest: "list_all (\<lambda>t. severity t \<in> set severity_labels) ts"
    by simp_all
  from sev have "weighted_step (Some a) t = Some (a + confidence t * severity_weight (severity t))"
    by (auto simp: weighted_step_def severityWeights_def severity_weight_def severity_labels_def)
  then show ?case
    using Cons.IH[OF rest] by (simp add: weighted_sum_def add.assoc)
qed

text \<open>
  Claim C3. For threats whose severity is one of the four labels, \<open>determineRiskLevel\<close>
  gives \<open>low\<close> for the empty list and otherwise maps the sum of confidence times weight
  (low 1, medium 2, high 3, critical 4) to \<open>critical\<close> from 3, \<open>high\<close> from 2,
  \<open>medium\<close> from 1 and \<open>low\<close> below.
\<close>

theorem determineRiskLevel_spec:
  assumes "list_all (\<lambda>t. severity t \<in> set severity_labels) ts"
  shows "determineRiskLevel ts
           = (if ts = [] then ''low'' else level_of_score (weighted_sum ts))"
  using weighted_fold[OF assms, of 0]
  by (simp add: determineRiskLevel_def Let_def js_ge_def level_of_score_def)

theorem determineRiskLevel_spec_witness:
  "list_all (\<lambda>t. severity t \<in> set severity_labels)
     [\<lparr> threat_type = Some ''phishing'', confidence = 3 / 4, indicators = [], severity = ''high'' \<rparr>,
      \<lparr> threat_type = Some ''financial_scam'', confidence = 10 / 13, indicators = [],
        severity = ''medium'' \<rparr>]
   \<and> determineRiskLevel
     [\<lparr> threat_type = Some ''phishing'', confidence = 3 / 4, indicators = [], severity = ''high'' \<rparr>,
      \<lparr> threat_type = Some ''financial_scam'', confidence = 10 / 13, indicators = [],
        severity = ''medium'' \<rparr>] = ''critical''"
proof -
  let ?ts = "[\<lparr> threat_type = Some ''phishing'', confidence = 3 / 4, indicators = [],
                severity = ''high'' \<rparr>,
              \<lparr> threat_type = Some ''financial_scam'', confidence = 10 / 13, indicators = [],
                severity = ''medium'' \<rparr>]"
  have h: "list_all (\<lambda>t. severity t \<in> set severity_labels) ?ts"
    by (simp add: severity_labels_def)
  have "level_of_score (weighted_sum ?ts) = ''critical''"
    by (simp add: weighted_sum_def severity_weight_def level_of_score_def)
  with determineRiskLevel_spec[OF h] h show ?thesis by simp
qed

subsection \<open>detectThreatType\<close>

lemma keyword_fold:
  "fst (foldl (keyword_step lower lc) acc ks)
     = fst acc + length (filter (\<lambda>k. js_includes lc (lower k)) ks)"
  by (induction ks arbitrary: acc) (simp_all add: keyword_step_def)

lemma pattern_fold:
  "fst (fst (foldl (pattern_step content) (acc, i) ps))
     = fst acc + length (filter (\<lambda>r. regex_test r content) ps)"
  by (induction ps arbitrary: acc i) (simp_all add: pattern_step_def Let_def)

lemma domain_fold:
  "fst (foldl (domain_step bad) acc hs)
     = fst acc + 2 * length (filter (\<lambda>h. list_ex (\<lambda>d. js_includes h d) bad) hs)"
  by (induction hs arbitrary: acc) (simp_all add: domain_step_def)

lemma detect_match_count:
  "fst (case domains pats of
          None \<Rightarrow> fst (foldl (pattern_step content)
                         (foldl (keyword_step lower (lower content)) (0, []) (keyword_list pats), 0)
                         (patterns pats))
        | Some bad \<Rightarrow>
            foldl (domain_step bad)
              (fst (foldl (pattern_step content)
                      (foldl (keyword_step lower (lower content)) (0, []) (keyword_list pats), 0)
                      (patterns pats)))
              (url_exec_all content))
     = match_count lower content pats"
  by (simp add: match_count_def keyword_matches_def pattern_matches_def suspicious_urls_def
        keyword_fold pattern_fold domain_fold split: option.splits)

lemma detect_confidence:
  assumes "0 < length (keyword_list pats) + length (patterns pats)"
  shows "det_confidence (detectThreatType rt eng content pats)
           = real (match_count (toLowerCase rt) content pats)
               / real (length (keyword_list pats) + length (patterns pats))"
    and "detected (detectThreatType rt eng content pats)
           \<longleftrightarrow> confidenceThreshold eng < det_confidence (detectThreatType rt eng content pats)"
  using assms
  by (simp_all add: detectThreatType_def Let_def detect_match_count del: of_nat_add)

lemma table_totals:
  assumes "(name, pats) \<in> set THREAT_PATTERNS"
  shows "0 < length (keyword_list pats) + length (patterns pats)"
  using assms
  by (auto simp: THREAT_PATTERNS_def phishing_patterns_def malware_patterns_def
        social_engineering_patterns_def financial_scam_patterns_def
        predator_behavior_patterns_def)

lemma match_count_bound:
  assumes "suspicious_urls content pats = 0"
  shows "match_count lower content pats \<le> length (keyword_list pats) + length (patterns pats)"
  using assms
  by (simp add: match_count_def keyword_matches_def pattern_matches_def add_mono)

text \<open>
  A keyword that is found, and a literal of an expression that matches, use only code
  units of the text (up to case, for the expression).
\<close>

lemma strip_prefix_set: "strip_prefix p s = Some r \<Longrightarrow> set p \<subseteq> set s"
  by (induction p s rule: strip_prefix.induct) (auto split: if_splits)

lemma js_includes_set: "js_includes s needle \<Longrightarrow> set needle \<subseteq> set s"
proof (induction s)
  case Nil
  then show ?case by simp
next
  case (Cons c cs)
  show ?case
  proof (cases "strip_prefix needle (c # cs)")
    case None
    with Cons show ?thesis by auto
  next
    case (Some r)
    then show ?thesis by (rule strip_prefix_set)
  qed
qed

lemma lit_match_ci_set:
  "lit_match_ci l s = Some r
     \<Longrightarrow> canonicalize ` set l \<subseteq> canonicalize ` set s \<and> set r \<subseteq> set s"
  by (induction l s rule: lit_match_ci.induct) (auto split: if_splits)

lemma re_match_here_set:
  "re_match_here r s \<Longrightarrow> Lit l \<in> set r \<Longrightarrow> canonicalize ` set l \<subseteq> canonicalize ` set s"
proof (induction r s rule: re_match_here.induct)
  case (1 s)
  then show ?case by simp
next
  case (2 l' r s)
  from "2.prems"(1) obtain rest where m: "lit_match_ci l' s = Some rest"
    and h: "re_match_here r rest"
    by (auto split: option.splits)
  from lit_match_ci_set[OF m] have a: "canonicalize ` set l' \<subseteq> canonicalize ` set s"
    and b: "set rest \<subseteq> set s" by simp_all
  show ?case
  proof (cases "l = l'")
    case True
    with a show ?thesis by simp
  next
    case False
    with "2.prems"(2) have "Lit l \<in> set r" by simp
    from "2.IH"[OF m h this] b show ?thesis by blast
  qed
next
  case (3 r)
  then show ?case by simp
next
  case (4 r c cs)
  from "4.prems"(2) have in_r: "Lit l \<in> set r" by simp
  from "4.prems"(1) consider "re_match_here (AnyStar # r) cs" | "re_match_here r (c # cs)"
    by auto
  then show ?case
  proof cases
    case 1
    from "4.IH"(1)[OF 1] in_r have "canonicalize ` set l \<subseteq> canonicalize ` set cs" by simp
    then show ?thesis by auto
  next
    case 2
    from "4.IH"(2)[OF 2 in_r] show ?thesis .
  qed
qed

lemma regex_test_set:
  "regex_test r s \<Longrightarrow> Lit l \<in> set r \<Longrightarrow> canonicalize ` set l \<subseteq> canonicalize ` set s"
proof (induction s)
  case Nil
  then show ?case using re_match_here_set[of r "[]" l] by simp
next
  case (Cons c cs)
  from Cons.prems(1) consider "re_match_here r (c # cs)" | "regex_test r cs" by auto
  then show ?case
  proof cases
    case 1
    from re_match_here_set[OF 1 Cons.prems(2)] show ?thesis .
  next
    case 2
    from Cons.IH[OF 2 Cons.prems(2)] show ?thesis by auto
  qed
qed

lemma link_codes:
  "suspicious_link = [104, 116, 116, 112, 58, 47, 47, 97, 112, 112, 108, 101, 45, 118, 101,
                      114, 105, 102, 121, 46, 110, 101, 116, 47]"
  by (simp add: suspicious_link_def js_def)

lemma nine_links_set:
  "set nine_links = {104, 116, 112, 58, 47, 97, 108, 101, 45, 118, 114, 105, 102, 121, 46, 110}"
  by (auto simp: nine_links_def link_codes)

lemma nine_links_keywords: "keyword_matches ascii_lower nine_links phishing_patterns = 0"
proof -
  have low: "set (ascii_lower nine_links) = set nine_links"
    by (simp add: ascii_lower_def nine_links_set)
  have "\<not> js_includes (ascii_lower nine_links) (ascii_lower keyword)"
    if "keyword \<in> set (keyword_list phishing_patterns)" for keyword
  proof
    assume "js_includes (ascii_lower nine_links) (ascii_lower keyword)"
    then have "set (ascii_lower keyword) \<subseteq> set nine_links"
      unfolding low[symmetric] by (rule js_includes_set)
    moreover from that have "32 \<in> set (ascii_lower keyword)"
      by (auto simp: phishing_patterns_def js_def ascii_lower_def)
    ultimately show False by (auto simp: nine_links_set)
  qed
  then show ?thesis by (simp add: keyword_matches_def filter_empty_conv)
qed

lemma nine_links_patterns: "pattern_matches nine_links phishing_patterns = 0"
proof -
  have canon: "canonicalize ` set nine_links
                 = {72, 84, 80, 58, 47, 65, 76, 69, 45, 86, 82, 73, 70, 89, 46, 78}"
    by (auto simp: nine_links_set canonicalize_def)
  have "\<not> regex_test pattern nine_links" if "pattern \<in> set (patterns phishing_patterns)"
    for pattern
  proof
    assume t: "regex_test pattern nine_links"
    have "\<forall>l. Lit l \<in> set pattern
            \<longrightarrow> (\<forall>c \<in> set l. canonicalize c \<in> canonicalize ` set nine_links)"
      using regex_test_set[OF t] by blast
    with that show False
      unfolding canon by (auto simp: phishing_patterns_def js_def canonicalize_def)
  qed
  then show ?thesis by (simp add: pattern_matches_def filter_empty_conv)
qed

text \<open>
  Claim C1, as it is stated, fails: each URL on a listed domain adds two to the count and
  nothing to the divisor, so nine such links give the phishing category the confidence
  18 / 17.
\<close>

theorem detectThreatType_confidence_counterexample:
  "det_confidence (detectThreatType ascii_runtime new_engine nine_links phishing_patterns)
     = 18 / 17
   \<and> \<not> det_confidence (detectThreatType ascii_runtime new_engine nine_links phishing_patterns)
         \<le> 1"
proof -
  note k = nine_links_keywords and p = nine_links_patterns
  have u: "suspicious_urls nine_links phishing_patterns = 9"
    by (simp add: suspicious_urls_def phishing_patterns_def nine_links_def link_codes js_def
          url_match_here_def host_char_def is_whitespace_def)
  have t: "length (keyword_list phishing_patterns) + length (patterns phishing_patterns) = 17"
    by (simp add: phishing_patterns_def)
  have "det_confidence (detectThreatType ascii_runtime new_engine nine_links phishing_patterns)
          = 18 / 17"
    using detect_confidence(1)[of phishing_patterns ascii_runtime new_engine nine_links]
    by (simp add: t match_count_def k p u ascii_runtime_def)
  then show ?thesis by simp
qed

text \<open>
  Claim C1, amended. For every text and every category of the table, the confidence that
  \<open>detectThreatType\<close> returns is the match count (one for each keyword found without
  regard to case, one for each matching expression, two for each URL whose host contains a
  listed domain) divided by the number of the category's keywords and expressions. It is
  at least 0, and at most 1 when no URL of the text is on a listed domain. The threat is
  reported as detected exactly when the confidence is greater than the threshold 0.7.
\<close>

theorem detectThreatType_confidence:
  assumes "(name, pats) \<in> set THREAT_PATTERNS" and "confidenceThreshold eng = 7 / 10"
  shows "det_confidence (detectThreatType rt eng content pats)
           = real (match_count (toLowerCase rt) content pats)
               / real (length (keyword_list pats) + length (patterns pats))
       \<and> 0 \<le> det_confidence (detectThreatType rt eng content pats)
       \<and> (suspicious_urls content pats = 0
            \<longrightarrow> det_confidence (detectThreatType rt eng content pats) \<le> 1)
       \<and> (detected (detectThreatType rt eng content pats)
            \<longleftrightarrow> 7 / 10 < det_confidence (detectThreatType rt eng content pats))"
proof -
  note tot = table_totals[OF assms(1)]
  note c = detect_confidence[OF tot, of rt eng content]
  have nonneg: "0 \<le> det_confidence (detectThreatType rt eng content pats)"
    unfolding c(1) by simp
  have le1: "det_confidence (detectThreatType rt eng content pats) \<le> 1"
    if "suspicious_urls content pats = 0"
  proof -
    from match_count_bound[OF that, of "toLowerCase rt"]
    have "real (match_count (toLowerCase rt) content pats)
            \<le> real (length (keyword_list pats) + length (patterns pats))"
      by (simp only: of_nat_le_iff)
    then show ?thesis
      unfolding c(1) using tot by (simp only: divide_le_eq_1 of_nat_0_less_iff) simp
  qed
  from c nonneg le1 assms(2) show ?thesis by simp
qed

theorem detectThreatType_confidence_witness:
  "(''malware'', malware_patterns) \<in> set THREAT_PATTERNS
   \<and> confidenceThreshold new_engine = 7 / 10
   \<and> suspicious_urls (js ''Virus DETECTED, download now'') malware_patterns = 0
   \<and> det_confidence (detectThreatType ascii_runtime new_engine (js ''Virus DETECTED, download now'')
        malware_patterns) = 4 / 13
   \<and> \<not> detected (detectThreatType ascii_runtime new_engine (js ''Virus DETECTED, download now'')
        malware_patterns)"
proof -
  have m: "(''malware'', malware_patterns) \<in> set THREAT_PATTERNS"
    by (simp add: THREAT_PATTERNS_def)
  have e: "confidenceThreshold new_engine = 7 / 10"
    by (simp add: new_engine_def init_def)
  have u: "suspicious_urls (js ''Virus DETECTED, download now'') malware_patterns = 0"
    by (simp add: suspicious_urls_def malware_patterns_def)
  have k: "keyword_matches ascii_lower (js ''Virus DETECTED, download now'') malware_patterns = 2"
    by (simp add: keyword_matches_def malware_patterns_def js_def ascii_lower_def)
  have p: "pattern_matches (js ''Virus DETECTED, download now'') malware_patterns = 2"
    by (simp add: pattern_matches_def malware_patterns_def js_def
          canonicalize_def line_terminator_def)
  have t: "length (keyword_list malware_patterns) + length (patterns malware_patterns) = 13"
    by (simp add: malware_patterns_def)
  from detectThreatType_confidence[OF m e, of ascii_runtime "js ''Virus DETECTED, download now''"]
  show ?thesis
    using m e u by (simp add: t match_count_def k p u ascii_runtime_def)
qed

subsection \<open>classifyWithTFIDF\<close>

text \<open>
  Every callback adds its measure under the one key that \<open>doc_category\<close> gives, so the
  \<open>scores\<close> object holds a single entry.
\<close>

lemma callback_fold_single:
  "foldl (tfidf_callback rt docs content) ([(''undefined'', a)], t) is
     = ([(''undefined'', a + sum_list (map (tfidf_measure rt docs content) is))],
        t + sum_list (map (\<lambda>i. \<bar>tfidf_measure rt docs content i\<bar>) is))"
  by (induction "is" arbitrary: a t)
     (simp_all add: tfidf_callback_def Let_def doc_category_def add.assoc)

lemma callback_fold_from_empty:
  "foldl (tfidf_callback rt docs content) ([], 0) (i # is)
     = ([(''undefined'', sum_list (map (tfidf_measure rt docs content) (i # is)))],
        sum_list (map (\<lambda>i. \<bar>tfidf_measure rt docs content i\<bar>) (i # is)))"
proof -
  have "tfidf_callback rt docs content ([], 0) i
          = ([(''undefined'', tfidf_measure rt docs content i)],
             \<bar>tfidf_measure rt docs content i\<bar>)"
    by (simp add: tfidf_callback_def Let_def doc_category_def)
  then show ?thesis
    by (simp add: callback_fold_single)
qed

lemma callback_fold_total:
  "snd (foldl (tfidf_callback rt docs content) st is)
     = snd st + sum_list (map (\<lambda>i. \<bar>tfidf_measure rt docs content i\<bar>) is)"
proof (induction "is" arbitrary: st)
  case Nil
  show ?case by simp
next
  case (Cons i "is")
  show ?case
    unfolding foldl_Cons Cons.IH
    by (simp add: tfidf_callback_def Let_def)
qed

lemma classify_total:
  "tfidf_confidence (classifyWithTFIDF rt eng content)
     = (if 0 < total_measure rt (documents eng) content
        then fst (foldl best_step (0, None) (scores (classifyWithTFIDF rt eng content)))
               / total_measure rt (documents eng) content
        else 0)"
  "category (classifyWithTFIDF rt eng content)
     = snd (foldl best_step (0, None) (scores (classifyWithTFIDF rt eng content)))"
  by (simp_all add: classifyWithTFIDF_def Let_def callback_fold_total total_measure_def)

subsection \<open>analyzeContent\<close>

lemma new_engine_fields:
  "initialized new_engine"
  "confidenceThreshold new_engine = 7 / 10"
  "documents new_engine = trainingData"
  by (simp_all add: new_engine_def init_def trainingData_def)

lemma determineRiskLevel_label: "determineRiskLevel ts \<in> set severity_labels"
  by (simp add: determineRiskLevel_def Let_def severity_labels_def)

lemma calculateSeverity_label: "calculateSeverity t c \<in> set severity_labels"
proof (cases t)
  case None
  then show ?thesis by (simp add: calculateSeverity_def severity_labels_def)
next
  case (Some name)
  have "map_of baseSeverity_table name = None
        \<or> map_of baseSeverity_table name = Some ''high''
        \<or> map_of baseSeverity_table name = Some ''medium''
        \<or> map_of baseSeverity_table name = Some ''critical''"
    by (simp add: baseSeverity_table_def)
  with Some show ?thesis
    by (auto simp: calculateSeverity_def severity_labels_def Let_def)
qed

lemma pattern_threats_labels:
  assumes "list_all (\<lambda>t. severity t \<in> set severity_labels) ts"
  shows "list_all (\<lambda>t. severity t \<in> set severity_labels)
           (foldl (pattern_threat_step rt eng content) ts entries)"
  using assms
proof (induction entries arbitrary: ts)
  case Nil
  then show ?case by simp
next
  case (Cons e entries)
  have "list_all (\<lambda>t. severity t \<in> set severity_labels)
          (pattern_threat_step rt eng content ts e)"
    using Cons.prems calculateSeverity_label
    by (simp add: pattern_threat_step_def Let_def)
  from Cons.IH[OF this] show ?case by simp
qed

lemma analyzeContent_string:
  assumes "initialized eng"
  shows "analyzeContent rt eng (JSString content)
     = (let ts = foldl (pattern_threat_step rt eng content) [] THREAT_PATTERNS
               @ (if confidenceThreshold eng < tfidf_confidence (classifyWithTFIDF rt eng content)
                  then [\<lparr> threat_type = category (classifyWithTFIDF rt eng content),
                          confidence = tfidf_confidence (classifyWithTFIDF rt eng content),
                          indicators = [AIPatternDetected],
                          severity = calculateSeverity (category (classifyWithTFIDF rt eng content))
                                       (tfidf_confidence (classifyWithTFIDF rt eng content)) \<rparr>]
                  else [])
        in (Inr \<lparr> threats = ts,
                  overall_confidence = calculateOverallConfidence ts,
                  riskLevel = determineRiskLevel ts,
                  analysis_indicators = [],
                  recommendations = generateRecommendations ts \<rparr>, eng))"
  using assms by (simp add: analyzeContent_def Let_def)

lemma analyzeContent_keeps_engine:
  assumes "initialized eng"
  shows "snd (analyzeContent rt eng v) = eng"
  using assms by (cases v) (simp_all add: analyzeContent_def Let_def)

lemma analyze_all_new_engine: "analyze_all rt new_engine vs = new_engine"
proof -
  have "foldl (\<lambda>e v. snd (analyzeContent rt e v)) eng vs = eng" if "initialized eng" for eng
    using that by (induction vs) (simp_all add: analyzeContent_keeps_engine)
  then show ?thesis
    unfolding analyze_all_def using new_engine_fields(1) by blast
qed

text \<open>
  The threats of an analysis are detected threats in the sense of claim C3: each carries
  one of the four severity labels.
\<close>

lemma analysis_threats_labels:
  assumes "fst (analyzeContent rt eng (JSString content)) = Inr a"
  shows "list_all (\<lambda>t. severity t \<in> set severity_labels) (threats a)"
proof -
  let ?eng = "if \<not> initialized eng then init eng else eng"
  have "list_all (\<lambda>t. severity t \<in> set severity_labels)
          (foldl (pattern_threat_step rt ?eng content) [] THREAT_PATTERNS)"
    by (rule pattern_threats_labels) simp
  with assms calculateSeverity_label show ?thesis
    by (auto simp: analyzeContent_def Let_def split: if_splits)
qed

text \<open>
  Claim C2. For every string, \<open>analyzeContent\<close> returns an analysis and no error: a list
  of threats, the confidence computed from them, a risk level that is one of \<open>low\<close>,
  \<open>medium\<close>, \<open>high\<close> and \<open>critical\<close>, the (empty) list of indicators and the
  recommendations. A call fails only for a value that is not a string.
\<close>

theorem analyzeContent_returns:
  "(\<exists>a. fst (analyzeContent rt eng (JSString content)) = Inr a
        \<and> riskLevel a \<in> set severity_labels
        \<and> overall_confidence a = calculateOverallConfidence (threats a)
        \<and> analysis_indicators a = []
        \<and> recommendations a = generateRecommendations (threats a))
   \<and> (\<forall>e. fst (analyzeContent rt eng v) = Inl e \<longrightarrow> (\<forall>s. v \<noteq> JSString s))"
proof
  show "\<exists>a. fst (analyzeContent rt eng (JSString content)) = Inr a
        \<and> riskLevel a \<in> set severity_labels
        \<and> overall_confidence a = calculateOverallConfidence (threats a)
        \<and> analysis_indicators a = []
        \<and> recommendations a = generateRecommendations (threats a)"
    by (simp add: analyzeContent_def Let_def determineRiskLevel_label)
  show "\<forall>e. fst (analyzeContent rt eng v) = Inl e \<longrightarrow> (\<forall>s. v \<noteq> JSString s)"
    by (cases v) (simp_all add: analyzeContent_def Let_def)
qed

theorem analyzeContent_returns_witness:
  "fst (analyzeContent ascii_runtime new_engine JSNull) = Inl TypeError
   \<and> (\<forall>s. JSNull \<noteq> JSString s)
   \<and> fst (analyzeContent ascii_runtime new_engine (JSString (js ''hi'')))
       = Inr \<lparr> threats = [], overall_confidence = 0, riskLevel = ''low'',
               analysis_indicators = [], recommendations = [] \<rparr>"
proof -
  have null: "fst (analyzeContent ascii_runtime new_engine JSNull) = Inl TypeError"
    by (simp add: analyzeContent_def Let_def)
  from analyzeContent_returns[of ascii_runtime new_engine "js ''hi''" JSNull] null
  have ns: "\<forall>s. JSNull \<noteq> JSString s" by blast
  from analyzeContent_returns[of ascii_runtime new_engine "js ''hi''" JSNull]
  obtain a where a: "fst (analyzeContent ascii_runtime new_engine (JSString (js ''hi''))) = Inr a"
    and rest: "overall_confidence a = calculateOverallConfidence (threats a)"
      "analysis_indicators a = []" "recommendations a = generateRecommendations (threats a)"
    by blast
  have d: "\<not> detected (detectThreatType ascii_runtime new_engine (js ''hi'') pats)"
    if "match_count ascii_lower (js ''hi'') pats = 0"
      and "0 < length (keyword_list pats) + length (patterns pats)" for pats
    using detect_confidence[OF that(2), of ascii_runtime new_engine "js ''hi''"] that(1)
    by (simp add: new_engine_fields ascii_runtime_def)
  have counts:
    "match_count ascii_lower (js ''hi'') phishing_patterns = 0"
    "match_count ascii_lower (js ''hi'') malware_patterns = 0"
    "match_count ascii_lower (js ''hi'') social_engineering_patterns = 0"
    "match_count ascii_lower (js ''hi'') financial_scam_patterns = 0"
    "match_count ascii_lower (js ''hi'') predator_behavior_patterns = 0"
    by (simp_all add: match_count_def keyword_matches_def pattern_matches_def
          suspicious_urls_def phishing_patterns_def malware_patterns_def
          social_engineering_patterns_def financial_scam_patterns_def
          predator_behavior_patterns_def js_def ascii_lower_def canonicalize_def
          line_terminator_def url_match_here_def)
  have totals:
    "0 < length (keyword_list phishing_patterns) + length (patterns phishing_patterns)"
    "0 < length (keyword_list malware_patterns) + length (patterns malware_patterns)"
    "0 < length (keyword_list social_engineering_patterns)
           + length (patterns social_engineering_patterns)"
    "0 < length (keyword_list financial_scam_patterns) + length (patterns financial_scam_patterns)"
    "0 < length (keyword_list predator_behavior_patterns)
           + length (patterns predator_behavior_patterns)"
    by (simp_all add: phishing_patterns_def malware_patterns_def
          social_engineering_patterns_def financial_scam_patterns_def
          predator_behavior_patterns_def)
  have pt: "foldl (pattern_threat_step ascii_runtime new_engine (js ''hi'')) [] THREAT_PATTERNS = []"
    by (simp add: THREAT_PATTERNS_def pattern_threat_step_def Let_def
          d[OF counts(1) totals(1)] d[OF counts(2) totals(2)] d[OF counts(3) totals(3)]
          d[OF counts(4) totals(4)] d[OF counts(5) totals(5)])
  have tf: "tfidf_confidence (classifyWithTFIDF ascii_runtime new_engine (js ''hi'')) = 0"
    by (simp add: classify_total(1) total_measure_def ascii_runtime_def)
  have "threats a = []"
    using a by (auto simp: analyzeContent_string[OF new_engine_fields(1)] Let_def pt tf
                  new_engine_fields(2))
  with a rest have "a = \<lparr> threats = [], overall_confidence = 0, riskLevel = ''low'',
               analysis_indicators = [], recommendations = [] \<rparr>"
    by (auto simp: analyzeContent_string[OF new_engine_fields(1)] Let_def pt tf
          new_engine_fields(2) calculateOverallConfidence_def determineRiskLevel_def
          generateRecommendations_def)
  with a null ns show ?thesis by simp
qed

text \<open>
  Claim C4. The exported engine is initialised when it is constructed, and no call of
  \<open>analyzeContent\<close> changes it: whatever values were analysed before, in whatever order,
  a string gets the same analysis.
\<close>

theorem analyzeContent_deterministic:
  "fst (analyzeContent rt (analyze_all rt new_engine before) (JSString content))
     = fst (analyzeContent rt (analyze_all rt new_engine before') (JSString content))
   \<and> analyze_all rt new_engine before = new_engine"
  by (simp add: analyze_all_new_engine)

theorem analyzeContent_deterministic_witness:
  "fst (analyzeContent ascii_runtime
          (analyze_all ascii_runtime new_engine [JSString nine_links, JSNull])
          (JSString (js ''hi'')))
     = fst (analyzeContent ascii_runtime (analyze_all ascii_runtime new_engine [])
              (JSString (js ''hi'')))"
  using analyzeContent_deterministic
          [of ascii_runtime "[JSString nine_links, JSNull]" "js ''hi''" "[]"]
  by (rule conjunct1)

text \<open>
  What \<open>classifyWithTFIDF\<close> returns on the exported engine, for every text and whatever
  the measures are.
\<close>

lemma classify_new_engine:
  "classifyWithTFIDF rt new_engine content
     = \<lparr> category =
           (if 0 < sum_list (map (tfidf_measure rt trainingData content) [0..<length trainingData])
            then Some ''undefined'' else None),
         tfidf_confidence =
           (if 0 < total_measure rt trainingData content
            then (if 0 < sum_list (map (tfidf_measure rt trainingData content)
                                   [0..<length trainingData])
                  then sum_list (map (tfidf_measure rt trainingData content)
                                   [0..<length trainingData])
                  else 0) / total_measure rt trainingData content
            else 0),
         scores =
           [(''undefined'',
             sum_list (map (tfidf_measure rt trainingData content) [0..<length trainingData]))] \<rparr>"
proof -
  have "0 < length trainingData" by (simp add: trainingData_def)
  then have idx: "[0..<length trainingData] = 0 # [Suc 0..<length trainingData]"
    by (rule upt_conv_Cons)
  have "foldl (tfidf_callback rt trainingData content) ([], 0) [0..<length trainingData]
          = ([(''undefined'',
               sum_list (map (tfidf_measure rt trainingData content) [0..<length trainingData]))],
             total_measure rt trainingData content)"
    unfolding total_measure_def
    by (subst (1 2 3) idx) (rule callback_fold_from_empty)
  then show ?thesis
    by (simp add: classifyWithTFIDF_def new_engine_fields(3) Let_def best_step_def)
qed

text \<open>
  A text that shares a term with a training document has measures that are not negative
  and not all 0. Whatever the document, the category returned is \<open>undefined\<close> and the
  confidence is 1, and \<open>analyzeContent\<close> appends a threat of that type, of severity
  \<open>low\<close>.
\<close>

lemma classify_shared_term:
  assumes "\<forall>i \<in> set [0..<length trainingData]. 0 \<le> tfidf_measure rt trainingData content i"
    and "\<exists>i \<in> set [0..<length trainingData]. 0 < tfidf_measure rt trainingData content i"
  shows "category (classifyWithTFIDF rt new_engine content) = Some ''undefined''"
    and "tfidf_confidence (classifyWithTFIDF rt new_engine content) = 1"
proof -
  let ?ms = "map (tfidf_measure rt trainingData content) [0..<length trainingData]"
  from assms(1) have abs: "map (\<lambda>i. \<bar>tfidf_measure rt trainingData content i\<bar>)
                             [0..<length trainingData] = ?ms"
    by (intro map_cong) simp_all
  then have total: "total_measure rt trainingData content = sum_list ?ms"
    by (simp only: total_measure_def)
  from assms(1) have nonneg: "\<forall>x \<in> set ?ms. 0 \<le> x" by auto
  have elem: "0 \<le> x" if "x \<in> set ?ms" for x
    using nonneg that by blast
  have "0 \<le> sum_list ?ms" by (rule sum_list_nonneg) (rule elem)
  moreover have "sum_list ?ms \<noteq> 0"
  proof
    assume "sum_list ?ms = 0"
    then have "\<forall>x \<in> set ?ms. x = 0"
      using sum_list_nonneg_eq_0_iff[of ?ms, OF elem] by blast
    with assms(2) show False by auto
  qed
  ultimately have pos: "0 < sum_list ?ms" by simp
  from pos show "category (classifyWithTFIDF rt new_engine content) = Some ''undefined''"
    by (simp add: classify_new_engine)
  from pos show "tfidf_confidence (classifyWithTFIDF rt new_engine content) = 1"
    by (simp add: classify_new_engine total)
qed

lemma analyzeContent_shared_term:
  assumes "\<forall>i \<in> set [0..<length trainingData]. 0 \<le> tfidf_measure rt trainingData content i"
    and "\<exists>i \<in> set [0..<length trainingData]. 0 < tfidf_measure rt trainingData content i"
  shows "\<exists>a. fst (analyzeContent rt new_engine (JSString content)) = Inr a
           \<and> threats a
               = foldl (pattern_threat_step rt new_engine content) [] THREAT_PATTERNS
                 @ [\<lparr> threat_type = Some ''undefined'', confidence = 1,
                        indicators = [AIPatternDetected], severity = ''low'' \<rparr>]"
  by (simp add: analyzeContent_string[OF new_engine_fields(1)] Let_def new_engine_fields(2)
        classify_shared_term[OF assms] calculateSeverity_def baseSeverity_table_def)

text \<open>
  Claim C5 against the code. The training category is handed to \<open>addDocument\<close> as the
  document's key, and \<open>classifyWithTFIDF\<close> reads the property \<open>category\<close>, which no
  document has. For every text the \<open>scores\<close> object therefore has the single key
  \<open>undefined\<close>, holding the sum of all measures and not one sum for each training
  category, and the category returned is \<open>undefined\<close> or none. For the empty text the
  result is no category, confidence 0 and the score 0 under \<open>undefined\<close>.
\<close>

theorem classifyWithTFIDF_single_key:
  "scores (classifyWithTFIDF rt new_engine content)
     = [(''undefined'',
         sum_list (map (tfidf_measure rt trainingData content) [0..<length trainingData]))]
   \<and> category (classifyWithTFIDF rt new_engine content) \<in> {None, Some ''undefined''}
   \<and> classifyWithTFIDF ascii_runtime new_engine (js '''')
       = \<lparr> category = None, tfidf_confidence = 0, scores = [(''undefined'', 0)] \<rparr>"
proof -
  have "classifyWithTFIDF ascii_runtime new_engine (js '''')
       = \<lparr> category = None, tfidf_confidence = 0, scores = [(''undefined'', 0)] \<rparr>"
    by (simp add: classify_new_engine total_measure_def ascii_runtime_def)
  then show ?thesis
    by (simp add: classify_new_engine)
qed

section \<open>Properties of the middleware\<close>

text \<open>
  Claim C7. When a validation rule has failed, \<open>handleValidationErrors\<close> responds with
  status 400 and a body whose status is \<open>error\<close> and whose \<open>errors\<close> are the field-level
  failures, and does not call the next handler; when none has failed, it sends nothing and
  passes the unchanged request to the next handler.
\<close>

theorem handleValidationErrors_spec:
  "(validationResult req \<noteq> [] \<longrightarrow>
      handleValidationErrors validationResult req
        = Responded 400 \<lparr> body_status = ''error'', body_message = ''Validation failed'',
                          body_errors = Some (validationResult req) \<rparr>)
   \<and> (validationResult req = [] \<longrightarrow>
      handleValidationErrors validationResult req = Next req)"
  by (simp add: handleValidationErrors_def Let_def)

theorem handleValidationErrors_spec_witness:
  "handleValidationErrors (\<lambda>r. if r = ''bad'' then [''Please provide a valid email''] else []) ''bad''
     = Responded 400 \<lparr> body_status = ''error'', body_message = ''Validation failed'',
                       body_errors = Some [''Please provide a valid email''] \<rparr>
   \<and> handleValidationErrors (\<lambda>r. if r = ''bad'' then [''Please provide a valid email''] else []) ''good''
     = Next ''good''"
  using handleValidationErrors_spec
          [of "\<lambda>r. if r = ''bad'' then [''Please provide a valid email''] else []" "''bad''"]
        handleValidationErrors_spec
          [of "\<lambda>r. if r = ''bad'' then [''Please provide a valid email''] else []" "''good''"]
  by simp

text \<open>
  With the User schema as it is, the password check throws for every user that is found,
  so every request that \<open>protect\<close> handles is answered with 401: also one that carries
  a valid bearer token for an existing user.
\<close>

lemma protect_responds_401:
  fixes env :: "('i, 'u) auth_env" and req :: "'u request"
  shows "\<exists>body. (protect env req :: ('u request, 'e) outcome) = Responded 401 body"
  by (simp add: protect_def Let_def changedPasswordAfter_def split: call.splits option.splits)

lemma protect_valid_bearer_rejected:
  "valid_bearer example_env bearer_request
   \<and> (protect example_env bearer_request :: (string request, unit) outcome)
       = Responded 401 not_authorized"
  by (simp add: valid_bearer_def bearer_token_def protect_def extract_token_def truthy_def
        startsWith_def changedPasswordAfter_def bearer_request_def example_env_def)

text \<open>
  Claim C8. If the request carries no bearer token, or the token fails verification
  against the configured secret, or the user it names no longer exists, \<open>protect\<close>
  responds with status 401 and does not call the route handler; a request that does not
  present a valid bearer token for an existing user does not reach the handler.
\<close>

theorem protect_spec:
  fixes env :: "('i, 'u) auth_env" and req :: "'u request"
  shows
  "((bearer_token req = None
      \<or> (\<exists>token. bearer_token req = Some token
             \<and> jwt_verify env token (JWT_SECRET env) = Throws)
      \<or> (\<exists>token d. bearer_token req = Some token
             \<and> jwt_verify env token (JWT_SECRET env) = Returns d
             \<and> findById env (token_id d) = Returns None))
     \<longrightarrow> (\<exists>body. (protect env req :: ('u request, 'e) outcome) = Responded 401 body)
         \<and> (\<forall>r. (protect env req :: ('u request, 'e) outcome) \<noteq> Next r))
   \<and> (\<not> valid_bearer env req
     \<longrightarrow> (\<forall>r. (protect env req :: ('u request, 'e) outcome) \<noteq> Next r))"
proof -
  obtain body :: "'e json_body"
    where r: "(protect env req :: ('u request, 'e) outcome) = Responded 401 body"
    using protect_responds_401[of env req] by blast
  then have "\<forall>r. (protect env req :: ('u request, 'e) outcome) \<noteq> Next r"
    by simp
  with r show ?thesis by blast
qed

theorem protect_spec_witness:
  "bearer_token header_token_request = None
   \<and> \<not> valid_bearer example_env header_token_request
   \<and> (protect example_env header_token_request :: (string request, unit) outcome)
       = Responded 401 not_authorized
   \<and> (\<forall>r. (protect example_env header_token_request :: (string request, unit) outcome)
          \<noteq> Next r)"
proof -
  have b: "bearer_token header_token_request = None"
    by (simp add: bearer_token_def truthy_def header_token_request_def)
  then have v: "\<not> valid_bearer example_env header_token_request"
    by (simp add: valid_bearer_def)
  from protect_spec[of header_token_request example_env, where 'e = unit] b
  have n: "\<forall>r. (protect example_env header_token_request :: (string request, unit) outcome)
             \<noteq> Next r"
    by blast
  have "(protect example_env header_token_request :: (string request, unit) outcome)
          = Responded 401 not_authorized"
    by (simp add: protect_def extract_token_def truthy_def changedPasswordAfter_def
          header_token_request_def example_env_def)
  with b v n show ?thesis by blast
qed

section \<open>Properties of game sessions\<close>

lemma calculateScore_fields:
  "correctAnswers (calculateScore s) = correctAnswers s"
  "accuracy (calculateScore s) = accuracy s"
  "timeSpent (calculateScore s) = timeSpent s"
  "difficulty (calculateScore s) = difficulty s"
  "0 \<le> score (calculateScore s)"
  by (simp_all add: calculateScore_def Let_def)

text \<open>
  The lower bounds hold in every state that the two methods reach, and the accuracy,
  which only the save hook writes, stays at its default.
\<close>

lemma session_step_lower_bounds:
  "0 \<le> score (session_step s c) \<and> accuracy (session_step s c) = accuracy s"
  by (cases c) (simp_all add: addQuestionResult_def completeSession_def calculateScore_fields)

lemma pre_save_accuracy_range:
  assumes "correctAnswers s \<le> totalQuestions s" and "0 \<le> accuracy s" and "accuracy s \<le> 100"
  shows "0 \<le> accuracy (pre_save s) \<and> accuracy (pre_save s) \<le> 100"
proof (cases "totalQuestions s > 0")
  case False
  with assms show ?thesis by (simp add: pre_save_def)
next
  case True
  let ?x = "real (correctAnswers s) / real (totalQuestions s) * 100"
  have "0 \<le> ?x" by simp
  moreover have "?x \<le> 100" using True assms(1) by (simp add: divide_le_eq)
  ultimately have "0 \<le> \<lfloor>?x + 1 / 2\<rfloor>" and "\<lfloor>?x + 1 / 2\<rfloor> \<le> 100"
    by linarith+
  then show ?thesis using True by (simp add: pre_save_def Math_round_def)
qed

text \<open>Correct answers only, on a session that has not been saved or completed.\<close>

lemma correct_answers_score:
  "foldl session_step (fresh_session d t) (replicate n (AddQuestionResult correct_answer))
     = (fresh_session d t)
         \<lparr> score := real n * 10 * difficultyMultiplier d,
           correctAnswers := n,
           totalQuestions := n,
           questions := replicate n correct_answer \<rparr>"
proof (induction n)
  case 0
  show ?case by (simp add: fresh_session_def)
next
  case (Suc n)
  have m: "0 \<le> difficultyMultiplier d"
    by (cases d) (simp_all add: difficultyMultiplier_def)
  have "foldl session_step (fresh_session d t)
          (replicate (Suc n) (AddQuestionResult correct_answer))
        = session_step
            (foldl session_step (fresh_session d t)
               (replicate n (AddQuestionResult correct_answer)))
            (AddQuestionResult correct_answer)"
    by (simp only: replicate_Suc replicate_append_same[symmetric] foldl_append foldl.simps)
  also have "\<dots> = (fresh_session d t)
         \<lparr> score := real (Suc n) * 10 * difficultyMultiplier d,
           correctAnswers := Suc n,
           totalQuestions := Suc n,
           questions := replicate (Suc n) correct_answer \<rparr>"
    using m unfolding Suc
    by (simp add: addQuestionResult_def calculateScore_def Let_def fresh_session_def
          correct_answer_def replicate_append_same max_def algebra_simps)
  finally show ?case .
qed

text \<open>
  The same score arises on the route, where every answer is followed by a save: after 13
  saved correct answers the accuracy is 100, and the 14th gives (140 + 200) * 3.
\<close>

lemma saved_correct_answers:
  "0 < n \<Longrightarrow> foldl answer_and_save (fresh_session d t) (replicate n correct_answer)
     = (fresh_session d t)
         \<lparr> score := (real n * 10 + (if n = 1 then 0 else 200)) * difficultyMultiplier d,
           correctAnswers := n,
           totalQuestions := n,
           accuracy := 100,
           questions := replicate n correct_answer \<rparr>"
proof (induction n)
  case 0
  then show ?case by simp
next
  case (Suc n)
  have m: "0 \<le> difficultyMultiplier d"
    by (cases d) (simp_all add: difficultyMultiplier_def)
  have unfold: "foldl answer_and_save (fresh_session d t) (replicate (Suc n) correct_answer)
        = answer_and_save
            (foldl answer_and_save (fresh_session d t) (replicate n correct_answer))
            correct_answer"
    by (simp only: replicate_Suc replicate_append_same[symmetric] foldl_append foldl.simps)
  show ?case
  proof (cases "n = 0")
    case True
    then show ?thesis
      using m
      by (simp add: answer_and_save_def pre_save_def addQuestionResult_def calculateScore_def
            Let_def fresh_session_def correct_answer_def Math_round_def max_def)
  next
    case False
    then have "0 < n" by simp
    note prev = Suc.IH[OF this]
    from m False show ?thesis
      unfolding unfold prev
      by (simp add: answer_and_save_def pre_save_def addQuestionResult_def calculateScore_def
            Let_def fresh_session_def correct_answer_def Math_round_def max_def
            replicate_append_same algebra_simps)
  qed
qed

lemma fourteenth_answer_on_route:
  "score (addQuestionResult correct_answer
            (foldl answer_and_save (fresh_session Expert 0) (replicate 13 correct_answer)))
     = 1020"
proof -
  have "0 < (13::nat)" by simp
  note saved = saved_correct_answers[OF this, of Expert 0]
  show ?thesis
    unfolding saved
    by (simp add: addQuestionResult_def calculateScore_def Let_def fresh_session_def
          correct_answer_def difficultyMultiplier_def)
qed

text \<open>
  Claim C6 against the code. The schema bounds the score by 1000, and \<open>calculateScore\<close>
  bounds it from below only: after 34 correct answers an expert session holds the score
  1020.
\<close>

theorem expert_session_score_exceeds_schema:
  "score (foldl session_step (fresh_session Expert 0)
            (replicate 34 (AddQuestionResult correct_answer))) = 1020
   \<and> \<not> score (foldl session_step (fresh_session Expert 0)
              (replicate 34 (AddQuestionResult correct_answer))) \<le> 1000"
  by (simp add: correct_answers_score difficultyMultiplier_def)

section \<open>Properties of pagination\<close>

lemma slice_nonneg: "0 \<le> s \<Longrightarrow> s \<le> e \<Longrightarrow> slice xs s e = take (nat (e - s)) (drop (nat s) xs)"
  unfolding slice_def Let_def
  by (auto simp: min_def max_def)


lemma concat_pages_take:
  "concat (map (\<lambda>k. take L (drop (k * L) xs)) [0..<m]) = take (m * L) xs"
proof (induction m)
  case 0
  show ?case by simp
next
  case (Suc m)
  have "Suc m * L = m * L + L" by simp
  then have "take (Suc m * L) xs = take (m * L) xs @ take L (drop (m * L) xs)"
    by (simp only: take_add)
  with Suc show ?case by simp
qed

lemma upto_from_one: "[1..int m] = map (\<lambda>k. int k + 1) [0..<m]"
proof (induction m)
  case 0
  show ?case by simp
next
  case (Suc m)
  have "[1..int (Suc m)] = [1..int m] @ [int m + 1]"
    by (simp add: upto_rec2 add.commute)
  with Suc show ?case by simp
qed

lemma paginate_data:
  assumes "1 \<le> limit" "1 \<le> page"
  shows "data (paginate array page limit) =
         take (nat limit) (drop (nat ((page - 1) * limit)) array)"
proof -
  have "0 \<le> (page - 1) * limit" using assms by simp
  moreover have "(page - 1) * limit \<le> page * limit" using assms by (simp add: mult_right_mono)
  moreover have "page * limit - (page - 1) * limit = limit" by (simp add: algebra_simps)
  ultimately show ?thesis
    by (simp add: paginate_def Let_def slice_nonneg)
qed

lemma paginate_concat:
  assumes "1 \<le> limit"
  shows "concat (map (\<lambda>p. data (paginate array p limit))
           [1..\<lceil>real (length array) / real_of_int limit\<rceil>]) = array"
proof -
  define L where "L = nat limit"
  define m where "m = nat \<lceil>real (length array) / real_of_int limit\<rceil>"
  have L: "limit = int L" "0 < L" using assms by (simp_all add: L_def)
  have "0 \<le> real (length array) / real_of_int limit"
    using assms by simp
  then have nonneg: "0 \<le> \<lceil>real (length array) / real_of_int limit\<rceil>"
    by simp
  then have m: "\<lceil>real (length array) / real_of_int limit\<rceil> = int m" by (simp add: m_def)
  have "real (length array) / real_of_int limit \<le> real_of_int (int m)"
    unfolding m[symmetric] by (rule le_of_int_ceiling)
  then have "real (length array) \<le> real m * real L"
    using L by (simp add: pos_divide_le_eq)
  then have "real (length array) \<le> real (m * L)" by simp
  then have len: "length array \<le> m * L" by linarith
  have step: "data (paginate array (int k + 1) limit) = take L (drop (k * L) array)" for k
    using paginate_data[of limit "int k + 1" array] assms
    by (simp add: L nat_mult_distrib flip: of_nat_mult)
  have "concat (map (\<lambda>p. data (paginate array p limit)) [1..int m])
        = concat (map (\<lambda>k. take L (drop (k * L) array)) [0..<m])"
    by (simp add: upto_from_one o_def step)
  also have "\<dots> = take (m * L) array" by (rule concat_pages_take)
  also have "\<dots> = array" using len by simp
  finally show ?thesis by (simp add: m)
qed

text \<open>
  Claim C10. For a limit of at least 1 and a page between 1 and the number of pages,
  \<open>paginate\<close> reports the length of the array as \<open>total\<close>, the ceiling of length / limit
  as \<open>totalPages\<close>, and as \<open>data\<close> the elements from index (page - 1) * limit up to
  page * limit; \<open>next\<close> is set exactly when page * limit is less than the length and
  \<open>previous\<close> exactly when the page is greater than 1. The data of the pages 1 to
  \<open>totalPages\<close>, one after another, are the array.
\<close>

theorem paginate_spec:
  assumes "1 \<le> limit" and "1 \<le> page"
    and "page \<le> \<lceil>real (length array) / real_of_int limit\<rceil>"
  shows "total (paginate array page limit) = length array
       \<and> totalPages (paginate array page limit)
           = Some \<lceil>real (length array) / real_of_int limit\<rceil>
       \<and> data (paginate array page limit)
           = take (nat limit) (drop (nat ((page - 1) * limit)) array)
       \<and> (next (paginate array page limit) \<noteq> None \<longleftrightarrow> page * limit < int (length array))
       \<and> (previous (paginate array page limit) \<noteq> None \<longleftrightarrow> 1 < page)
       \<and> concat (map (\<lambda>p. data (paginate array p limit))
             [1..\<lceil>real (length array) / real_of_int limit\<rceil>]) = array"
proof -
  have prev: "(0 < (page - 1) * limit) = (1 < page)"
    using assms(1) by (simp add: zero_less_mult_iff)
  have d: "data (paginate array page limit)
           = take (nat limit) (drop (nat ((page - 1) * limit)) array)"
    by (rule paginate_data[OF assms(1,2)])
  have c: "concat (map (\<lambda>p. data (paginate array p limit))
             [1..\<lceil>real (length array) / real_of_int limit\<rceil>]) = array"
    by (rule paginate_concat[OF assms(1)])
  have t: "total (paginate array page limit) = length array"
    by (simp add: paginate_def Let_def)
  have tp: "totalPages (paginate array page limit)
           = Some \<lceil>real (length array) / real_of_int limit\<rceil>"
    using assms(1) by (simp add: paginate_def Let_def)
  have n: "next (paginate array page limit) \<noteq> None \<longleftrightarrow> page * limit < int (length array)"
    by (simp add: paginate_def Let_def)
  have p: "previous (paginate array page limit) \<noteq> None \<longleftrightarrow> 1 < page"
    using prev by (simp add: paginate_def Let_def)
  from t tp d n p c show ?thesis by blast
qed

theorem paginate_spec_witness:
  "(1::int) \<le> 2 \<and> (2::int) \<le> \<lceil>real (length [10, 20, 30, 40, 50 :: nat]) / real_of_int 2\<rceil>
   \<and> data (paginate [10, 20, 30, 40, 50 :: nat] 2 2) = [30, 40]
   \<and> totalPages (paginate [10, 20, 30, 40, 50 :: nat] 2 2) = Some 3
   \<and> concat (map (\<lambda>p. data (paginate [10, 20, 30, 40, 50 :: nat] p 2)) [1..3]) = [10, 20, 30, 40, 50]"
proof -
  have c: "\<lceil>real (length [10, 20, 30, 40, 50 :: nat]) / real_of_int 2\<rceil> = 3"
    by (simp add: ceiling_eq_iff)
  have "(2::int) \<le> \<lceil>real (length [10, 20, 30, 40, 50 :: nat]) / real_of_int 2\<rceil>"
    unfolding c by simp
  then show ?thesis
    using paginate_spec[of 2 2 "[10, 20, 30, 40, 50 :: nat]"]
    unfolding c by simp
qed

end
